theory Spec2Isabelle
  imports Complex_Main "HOL-Library.Multiset"
begin

section \<open>Settings (geosar/settings.py)\<close>

definition TIMEZONE :: string where "TIMEZONE = ''America/New_York''"

definition ASTRO_HORIZ :: string where "ASTRO_HORIZ = ''-18''"
definition NAUTI_HORIZ :: string where "NAUTI_HORIZ = ''-12''"
definition CIVIL_HORIZ :: string where "CIVIL_HORIZ = ''-6''"
definition SHINE_HORIZ :: string where "SHINE_HORIZ = ''0''"

definition NIGHT :: string where "NIGHT = ''Night''"
definition ASTRO :: string where "ASTRO = ''Astrological Twilight''"
definition NAUTI :: string where "NAUTI = ''Nautical Twilight''"
definition CIVIL :: string where "CIVIL = ''Civil Twilight''"
definition SHINE :: string where "SHINE = ''Daytime''"
definition PLANS :: string where "PLANS = ''Planning''"

section \<open>Time\<close>

text \<open>
  An instant is a point of the UTC time scale, counted in microseconds since
  1970-01-01T00:00:00. A calendar date is a day number since 1970-01-01. A missing
  timestamp (Python \<open>None\<close>, pandas \<open>NaT\<close>) is \<open>None\<close>.
\<close>

type_synonym instant = int

definition usec_per_day :: int where "usec_per_day = 86400000000"

definition time_hm :: "int \<Rightarrow> int \<Rightarrow> int" where
  \<comment> \<open>\<open>datetime.time(h, m)\<close> as microseconds since midnight\<close>
  "time_hm h m = (h * 60 + m) * 60000000"

definition combine :: "int \<Rightarrow> int \<Rightarrow> instant" where
  \<comment> \<open>\<open>datetime.datetime.combine(date, time)\<close>: a naive datetime, which the ephemeris
      library reads on the UTC scale, as \<open>sun_events\<close> does with what it gets back
      (\<open>tz_localize('UTC')\<close>)\<close>
  "combine d tod = d * usec_per_day + tod"

definition date_of :: "instant \<Rightarrow> int" where
  \<comment> \<open>\<open>.date()\<close> of a UTC datetime\<close>
  "date_of t = t div usec_per_day"

definition time_of :: "instant \<Rightarrow> int" where
  \<comment> \<open>\<open>.time()\<close>: the time of day, microseconds since midnight\<close>
  "time_of t = t mod usec_per_day"

definition day :: int where
  \<comment> \<open>\<open>datetime.timedelta(days=1)\<close>, in days\<close>
  "day = 1"

section \<open>Data frames\<close>

text \<open>
  A data frame is the list of its rows; a row is a record of its columns, and adding
  columns extends the record. Column \<open>id\<close> is written \<open>id'\<close>.
\<close>

record parsed_row =
  latitude :: real
  longitude :: real
  utc :: "instant option"
  id' :: nat
  name :: "string option"
  description :: "string option"

record timed_row = parsed_row +
  utc_date :: "instant option"
  utc_time :: "int option"
  local :: "instant option"
  date :: "instant option"
  time :: "int option"

record phased_row = timed_row +
  phase :: string

record start_row = phased_row +
  start_phase :: string

record out_row = start_row +
  end_phase :: string

text \<open>The dictionary built by \<open>_sun_event\<close>; key \<open>set\<close> is written \<open>set'\<close>.\<close>

record sun_times =
  phase :: string
  rise :: instant
  set' :: instant

text \<open>A row of the frame returned by \<open>sun_events\<close>.\<close>

record event =
  phase :: string
  direction :: string
  datetime :: instant

section \<open>The parsed track file and the external libraries\<close>

record GPXTrackPoint =
  latitude :: real
  longitude :: real
  time :: "instant option"

record GPXTrackSegment =
  points :: "GPXTrackPoint list"

record GPXTrack =
  segments :: "GPXTrackSegment list"
  name :: "string option"
  description :: "string option"

record TimeBounds =
  start_time :: "instant option"
  end_time :: "instant option"

text \<open>The object returned by the track-file parser.\<close>

record GPXData =
  tracks :: "GPXTrack list"

definition walk :: "GPXData \<Rightarrow> GPXTrackPoint list" where
  \<comment> \<open>the parser's \<open>walk()\<close>: every point of every segment of every track, in file
      order (the source reads component \<open>p[0]\<close>, the point, of what it yields)\<close>
  "walk g = concat (map (\<lambda>t. concat (map points (segments t))) (tracks g))"

definition timestamps :: "GPXData \<Rightarrow> instant list" where
  \<comment> \<open>the timestamps of the track points that have one, in file order\<close>
  "timestamps g =
     concat (map (\<lambda>p. case GPXTrackPoint.time p of None \<Rightarrow> [] | Some t \<Rightarrow> [t]) (walk g))"

definition get_time_bounds :: "GPXData \<Rightarrow> TimeBounds" where
  \<comment> \<open>the parser's \<open>get_time_bounds()\<close>: it runs over the tracks, their segments and
      their points in file order, keeps the first timestamp it meets as the start and
      the last one as the end, and compares none of them\<close>
  "get_time_bounds g =
     (case timestamps g of
        [] \<Rightarrow> \<lparr>start_time = None, end_time = None\<rparr>
      | t # ts \<Rightarrow> \<lparr>start_time = Some t, end_time = Some (last (t # ts))\<rparr>)"

text \<open>
  The observer of the ephemeris library. Its latitude and longitude are held as the
  decimal strings the source assigns to them.
\<close>

record Observer =
  lat :: string
  lon :: string
  date :: instant
  horizon :: string

text \<open>
  The external capabilities: the rise/set search of the ephemeris library, a function
  of the observer as it stands at the call, the time-zone table (the UTC offset, in
  microseconds, of a named zone at an instant), and the two operations on doubles
  that are not exact. The search is taken to answer: the polar cases, where the
  library raises, are outside the model.

  A coordinate is a double and is read as the real number it denotes; comparing and
  sorting doubles is comparing and sorting these reals. \<open>float_mean\<close> is the mean of two
  doubles as \<open>np.median\<close> takes it, rounded as the machine rounds it, and \<open>float_str\<close>
  is \<open>str\<close> of a double.
\<close>

record ext =
  previous_rising :: "Observer \<Rightarrow> instant"
  next_setting :: "Observer \<Rightarrow> instant"
  utcoffset :: "string \<Rightarrow> instant \<Rightarrow> int"
  float_mean :: "real \<Rightarrow> real \<Rightarrow> real"
  float_str :: "real \<Rightarrow> string"

text \<open>
  The exceptions that escape: \<open>TypeError\<close>, \<open>ValueError\<close>, \<open>AttributeError\<close> and
  \<open>KeyError\<close> are raised by the libraries on the paths written out below.
  \<open>InsufficientDataError\<close> is the name the specification uses; the source neither
  defines nor raises it.
\<close>

datatype error = TypeError | ValueError | AttributeError | KeyError | InsufficientDataError

section \<open>class GPX\<close>

record GPX =
  gpx_data :: GPXData
  observer :: Observer
  start_date :: int
  end_date :: int

subsection \<open>\<open>_observer_init\<close>\<close>

definition median :: "ext \<Rightarrow> real list \<Rightarrow> real" where
  \<comment> \<open>\<open>np.median\<close> along one column of a non-empty array: the middle element of the
      sorted column, or the mean, in doubles, of the two middle elements\<close>
  "median X xs =
     (let s = sort xs; n = length xs in
      if even n then float_mean X (s ! (n div 2 - 1)) (s ! (n div 2)) else s ! (n div 2))"

definition observer_init :: "ext \<Rightarrow> GPXData \<Rightarrow> error + Observer" where
  \<comment> \<open>With no point the array is empty, \<open>np.median\<close> returns a scalar \<open>nan\<close> and
      unpacking it into \<open>mid_lat, mid_lon\<close> raises \<open>TypeError\<close>. Assigning \<open>None\<close> to
      \<open>obs.date\<close> raises \<open>ValueError\<close>.\<close>
  "observer_init X g =
     (let pts = map (\<lambda>p. (GPXTrackPoint.latitude p, GPXTrackPoint.longitude p)) (walk g) in
      if pts = [] then Inl TypeError
      else
        let mid_lat = median X (map fst pts); mid_lon = median X (map snd pts) in
        case start_time (get_time_bounds g) of
          None \<Rightarrow> Inl ValueError
        | Some t \<Rightarrow>
            Inr \<lparr>lat = float_str X mid_lat, lon = float_str X mid_lon,
                 Observer.date = t, horizon = ''0''\<rparr>)"

subsection \<open>\<open>__init__\<close>\<close>

definition GPX_init :: "ext \<Rightarrow> GPXData \<Rightarrow> error + GPX" where
  "GPX_init X g =
     (case observer_init X g of
        Inl e \<Rightarrow> Inl e
      | Inr obs \<Rightarrow>
          (case start_time (get_time_bounds g) of
             None \<Rightarrow> Inl AttributeError
           | Some s \<Rightarrow>
               (case end_time (get_time_bounds g) of
                  None \<Rightarrow> Inl AttributeError
                | Some e \<Rightarrow>
                    Inr \<lparr>gpx_data = g, observer = obs,
                         start_date = date_of s, end_date = date_of e\<rparr>)))"

subsection \<open>\<open>_sun_event\<close> and \<open>sun_events\<close>\<close>

text \<open>
  The observer is one mutable object: \<open>_sun_event\<close> overwrites its horizon and
  \<open>sun_events\<close> its date. The model passes it along and returns it.
\<close>

definition sun_event :: "ext \<Rightarrow> Observer \<Rightarrow> string \<Rightarrow> string \<Rightarrow> sun_times \<times> Observer" where
  "sun_event X obs horizon' phase' =
     (let obs' = obs\<lparr>horizon := horizon'\<rparr> in
      (\<lparr>sun_times.phase = phase', rise = previous_rising X obs', set' = next_setting X obs'\<rparr>,
       obs'))"

definition phases :: "(string \<times> string) list" where
  "phases = [(ASTRO, ASTRO_HORIZ), (NAUTI, NAUTI_HORIZ), (CIVIL, CIVIL_HORIZ), (SHINE, SHINE_HORIZ)]"

fun phases_loop ::
  "ext \<Rightarrow> (string \<times> string) list \<Rightarrow> sun_times list \<times> Observer \<Rightarrow> sun_times list \<times> Observer" where
  "phases_loop X [] (times', obs) = (times', obs)"
| "phases_loop X ((phase', horizon') # ps) (times', obs) =
     (case sun_event X obs horizon' phase' of
        (t, obs') \<Rightarrow> phases_loop X ps (times' @ [t], obs'))"

fun days_loop ::
  "ext \<Rightarrow> int \<Rightarrow> nat list \<Rightarrow> sun_times list \<times> Observer \<Rightarrow> sun_times list \<times> Observer" where
  "days_loop X sd [] (times', obs) = (times', obs)"
| "days_loop X sd (d # ds) (times', obs) =
     days_loop X sd ds
       (phases_loop X phases
          (times', obs\<lparr>Observer.date := combine (sd + day * int d) (time_hm 12 0)\<rparr>))"

definition melt :: "sun_times list \<Rightarrow> event list" where
  \<comment> \<open>\<open>melt(id_vars=['phase'], var_name='direction', value_name='datetime')\<close>: first the
      \<open>rise\<close> column of every row, then the \<open>set\<close> column of every row\<close>
  "melt times' =
     map (\<lambda>t. \<lparr>event.phase = sun_times.phase t, direction = ''rise'', datetime = rise t\<rparr>) times' @
     map (\<lambda>t. \<lparr>event.phase = sun_times.phase t, direction = ''set'', datetime = set' t\<rparr>) times'"

definition sort_values :: "event list \<Rightarrow> event list" where
  \<comment> \<open>\<open>sort_values('datetime')\<close>: ascending; the order the library leaves among rows
      of equal instant is fixed here to the order they had\<close>
  "sort_values times' = sort_key datetime times'"

definition setting_shifts :: "(string \<times> string) list" where
  "setting_shifts = [(ASTRO, NIGHT), (NAUTI, ASTRO), (CIVIL, NAUTI), (SHINE, CIVIL)]"

fun shift_loop :: "(string \<times> string) list \<Rightarrow> event list \<Rightarrow> event list" where
  "shift_loop [] times' = times'"
| "shift_loop ((from', to') # ss) times' =
     shift_loop ss
       (map (\<lambda>e. if direction e = ''set'' \<and> event.phase e = from'
                 then e\<lparr>event.phase := to'\<rparr> else e) times')"

definition range_days :: "GPX \<Rightarrow> nat list" where
  \<comment> \<open>\<open>range(int((self.end_date - self.start_date) / day) + 1)\<close>: the difference of two
      dates is a whole number of days, and a range up to a number below 1 is empty\<close>
  "range_days self = [0..<nat ((end_date self - start_date self) div day + 1)]"

definition collect_times :: "ext \<Rightarrow> GPX \<Rightarrow> sun_times list \<times> Observer" where
  \<comment> \<open>the loop over the days, from the empty list \<open>times\<close>\<close>
  "collect_times X self =
     days_loop X (start_date self) (range_days self) ([], observer self)"

definition sun_events :: "ext \<Rightarrow> GPX \<Rightarrow> error + event list \<times> GPX" where
  \<comment> \<open>With no day in the range the frame has no column \<open>phase\<close> and \<open>melt\<close> raises
      \<open>KeyError\<close>. \<open>tz_localize('UTC')\<close> leaves the instants as they are.\<close>
  "sun_events X self =
     (case collect_times X self of
        (times', obs) \<Rightarrow>
          if times' = [] then Inl KeyError
          else Inr (shift_loop setting_shifts (sort_values (melt times')),
                    self\<lparr>observer := obs\<rparr>))"

subsection \<open>\<open>_parse_track\<close>\<close>

definition parse_track :: "GPXTrack \<Rightarrow> nat \<Rightarrow> parsed_row list" where
  "parse_track track index =
     map (\<lambda>point.
            \<lparr>parsed_row.latitude = GPXTrackPoint.latitude point,
             longitude = GPXTrackPoint.longitude point,
             utc = GPXTrackPoint.time point,
             id' = index,
             name = GPXTrack.name track,
             description = GPXTrack.description track\<rparr>)
         (concat (map points (segments track)))"

subsection \<open>\<open>_expand_time_info\<close>\<close>

definition tz_convert :: "ext \<Rightarrow> string \<Rightarrow> instant \<Rightarrow> int" where
  \<comment> \<open>the wall-clock reading of an instant in a zone, in microseconds\<close>
  "tz_convert X zone t = t + utcoffset X zone t"

definition expand_row :: "ext \<Rightarrow> parsed_row \<Rightarrow> timed_row" where
  \<comment> \<open>lines 120 to 127: the columns \<open>utc_date\<close>, \<open>utc_time\<close>, \<open>local\<close>, \<open>date\<close> and
      \<open>time\<close> of one row\<close>
  "expand_row X r =
     (let loc = map_option (tz_convert X TIMEZONE) (utc r) in
      parsed_row.extend r
        \<lparr>utc_date = map_option (\<lambda>t. combine (date_of t) 0) (utc r),
         utc_time = map_option time_of (utc r),
         local = loc,
         timed_row.date = map_option (\<lambda>w. combine (date_of w) 0) loc,
         timed_row.time = map_option time_of loc\<rparr>)"

definition loc_set_phase :: "(phased_row \<Rightarrow> bool) \<Rightarrow> string \<Rightarrow> phased_row list \<Rightarrow> phased_row list" where
  \<comment> \<open>\<open>df.loc[mask, 'phase'] = value\<close>\<close>
  "loc_set_phase mask' v df = map (\<lambda>r. if mask' r then r\<lparr>phased_row.phase := v\<rparr> else r) df"

definition utc_ge :: "instant option \<Rightarrow> instant \<Rightarrow> bool" where
  \<comment> \<open>\<open>df.utc >= event.datetime\<close>: a comparison with \<open>NaT\<close> is false\<close>
  "utc_ge u t = (case u of None \<Rightarrow> False | Some v \<Rightarrow> t \<le> v)"

fun events_loop :: "event list \<Rightarrow> phased_row list \<Rightarrow> phased_row list" where
  "events_loop [] df = df"
| "events_loop (ev # evs) df =
     events_loop evs (loc_set_phase (\<lambda>r. utc_ge (utc r) (datetime ev)) (event.phase ev) df)"

definition groupby_first :: "phased_row list \<Rightarrow> nat \<rightharpoonup> string" where
  \<comment> \<open>\<open>df[['id', 'phase']].groupby('id').first()\<close>: one row per id, with the phase of
      the first row of that id (no phase is null)\<close>
  "groupby_first df i =
     (case filter (\<lambda>r. id' r = i) df of [] \<Rightarrow> None | r # _ \<Rightarrow> Some (phased_row.phase r))"

definition groupby_last :: "phased_row list \<Rightarrow> nat \<rightharpoonup> string" where
  "groupby_last df i =
     (case rev (filter (\<lambda>r. id' r = i) df) of [] \<Rightarrow> None | r # _ \<Rightarrow> Some (phased_row.phase r))"

definition merge_start :: "phased_row list \<Rightarrow> (nat \<rightharpoonup> string) \<Rightarrow> start_row list" where
  \<comment> \<open>\<open>df.merge(right, on='id')\<close>, an inner join in the order of the left frame; a
      left row whose id has no row on the right is dropped\<close>
  "merge_start df right =
     concat (map (\<lambda>r. case right (id' r) of
                        None \<Rightarrow> []
                      | Some p \<Rightarrow> [phased_row.extend r \<lparr>start_phase = p\<rparr>]) df)"

definition merge_end :: "start_row list \<Rightarrow> (nat \<rightharpoonup> string) \<Rightarrow> out_row list" where
  "merge_end df right =
     concat (map (\<lambda>r. case right (id' r) of
                        None \<Rightarrow> []
                      | Some p \<Rightarrow> [start_row.extend r \<lparr>end_phase = p\<rparr>]) df)"

definition classify :: "event list \<Rightarrow> timed_row list \<Rightarrow> phased_row list" where
  \<comment> \<open>lines 129 to 132: the new column \<open>phase\<close> with its default, \<open>Night\<close> for every
      row with a timestamp, then one pass per breakpoint in the order of the timeline\<close>
  "classify events df =
     events_loop events
       (loc_set_phase (\<lambda>r. utc r \<noteq> None) NIGHT
          (map (\<lambda>r. timed_row.extend r \<lparr>phased_row.phase = PLANS\<rparr>) df))"

definition expand_time_info :: "ext \<Rightarrow> GPX \<Rightarrow> parsed_row list \<Rightarrow> error + out_row list \<times> GPX" where
  \<comment> \<open>A frame without rows has no column \<open>utc\<close> (\<open>AttributeError\<close>); a column \<open>utc\<close>
      without any timestamp is not time-zone aware and \<open>tz_convert\<close> raises
      \<open>TypeError\<close>.\<close>
  "expand_time_info X self df =
     (if df = [] then Inl AttributeError
      else if list_all (\<lambda>r. utc r = None) df then Inl TypeError
      else
        (case sun_events X self of
           Inl e \<Rightarrow> Inl e
         | Inr (events, self') \<Rightarrow>
             let df' = classify events (map (expand_row X) df) in
             Inr (merge_end (merge_start df' (groupby_first df')) (groupby_last df'), self')))"

subsection \<open>\<open>track_data\<close>\<close>

definition track_data :: "ext \<Rightarrow> GPX \<Rightarrow> bool option \<Rightarrow> error + out_row list \<times> GPX" where
  \<comment> \<open>\<open>pd.concat\<close> of no frame at all raises \<open>ValueError\<close>\<close>
  "track_data X self time' =
     (let frames = map (\<lambda>(index, track). parse_track track index)
                       (enumerate 0 (tracks (gpx_data self))) in
      if frames = [] then Inl ValueError
      else
        (case expand_time_info X self (concat frames) of
           Inl e \<Rightarrow> Inl e
         | Inr (df, self') \<Rightarrow>
             (case time' of
                None \<Rightarrow> Inr (df, self')
              | Some True \<Rightarrow> Inr (filter (\<lambda>r. utc r \<noteq> None) df, self')
              | Some False \<Rightarrow> Inr (filter (\<lambda>r. utc r = None) df, self'))))"

section \<open>Notions used in the statements\<close>

definition observer_at :: "Observer \<Rightarrow> int \<Rightarrow> string \<Rightarrow> Observer" where
  \<comment> \<open>the observer with its clock at 12:00 UTC of day \<open>d\<close> and its horizon at \<open>h\<close>\<close>
  "observer_at obs d h = obs\<lparr>Observer.date := combine d (time_hm 12 0), horizon := h\<rparr>"

definition day_times :: "ext \<Rightarrow> Observer \<Rightarrow> int \<Rightarrow> sun_times list" where
  \<comment> \<open>the four dictionaries of day \<open>d\<close>\<close>
  "day_times X obs d =
     map (\<lambda>(p, h). \<lparr>sun_times.phase = p,
                     rise = previous_rising X (observer_at obs d h),
                     set' = next_setting X (observer_at obs d h)\<rparr>) phases"

definition setting_relabel :: "string \<Rightarrow> string" where
  \<comment> \<open>the fixed relabelling of the specification, applied once\<close>
  "setting_relabel p =
     (if p = ASTRO then NIGHT
      else if p = NAUTI then ASTRO
      else if p = CIVIL then NAUTI
      else if p = SHINE then CIVIL
      else p)"

definition relabel :: "event \<Rightarrow> event" where
  "relabel e =
     (if direction e = ''set'' then e\<lparr>event.phase := setting_relabel (event.phase e)\<rparr> else e)"

definition latest_breakpoint :: "event list \<Rightarrow> instant \<Rightarrow> event option" where
  \<comment> \<open>the last breakpoint of the timeline, in its order, whose instant is at or
      before \<open>t\<close>\<close>
  "latest_breakpoint tline t =
     (case rev (filter (\<lambda>e. datetime e \<le> t) tline) of [] \<Rightarrow> None | b # _ \<Rightarrow> Some b)"


fun scan :: "instant option \<Rightarrow> event list \<Rightarrow> string \<Rightarrow> string" where
  \<comment> \<open>what the passes of \<open>events_loop\<close> do to the phase of one row\<close>
  "scan u [] p = p"
| "scan u (ev # evs) p = scan u evs (if utc_ge u (datetime ev) then event.phase ev else p)"

definition assigned_phase :: "event list \<Rightarrow> instant option \<Rightarrow> string" where
  "assigned_phase tline u =
     (case u of
        None \<Rightarrow> PLANS
      | Some t \<Rightarrow> (case latest_breakpoint tline t of None \<Rightarrow> NIGHT | Some b \<Rightarrow> event.phase b))"

definition first_phase :: "phased_row list \<Rightarrow> nat \<Rightarrow> string" where
  "first_phase df i = phased_row.phase (hd (filter (\<lambda>r. id' r = i) df))"

definition last_phase :: "phased_row list \<Rightarrow> nat \<Rightarrow> string" where
  "last_phase df i = phased_row.phase (last (filter (\<lambda>r. id' r = i) df))"

definition summarised :: "phased_row list \<Rightarrow> phased_row \<Rightarrow> out_row" where
  "summarised df r =
     start_row.extend (phased_row.extend r \<lparr>start_phase = first_phase df (id' r)\<rparr>)
       \<lparr>end_phase = last_phase df (id' r)\<rparr>"

definition shift1 :: "string \<Rightarrow> string \<Rightarrow> event \<Rightarrow> event" where
  "shift1 a b e = (if direction e = ''set'' \<and> event.phase e = a then e\<lparr>event.phase := b\<rparr> else e)"

definition same_mission :: "GPX \<Rightarrow> GPX \<Rightarrow> bool" where
  \<comment> \<open>the same object up to the clock and the horizon of its observer\<close>
  "same_mission a b \<longleftrightarrow>
     gpx_data a = gpx_data b \<and> start_date a = start_date b \<and> end_date a = end_date b \<and>
     lat (observer a) = lat (observer b) \<and> lon (observer a) = lon (observer b)"

section \<open>A sample mission\<close>

text \<open>
  A mission of two days, day 0 and day 1, in Virginia on late-autumn days, when every
  solar event comes about a minute later than the day before. The sample ephemeris
  repeats the events of a horizon every 24 h 1 min: on day 0 the sun crosses -18, -12,
  -6 and 0 degrees upwards at 10:30, 11:00, 11:32 and 11:59:30 UTC and crosses 0, -6,
  -12 and -18 degrees downwards at 21:55, 22:24, 22:56 and 23:27 UTC. The previous
  rising is the latest such event at or before the observer's date, the next setting
  the earliest at or after it. The zone America/New_York is five hours behind UTC.
  Track 0 has one point without a timestamp; track 1 has points at 03:00 and 11:00 UTC
  of day 0 and at 22:30 UTC of day 1.
\<close>

definition sample_rise_at :: "string \<Rightarrow> int" where
  "sample_rise_at h =
     (if h = ASTRO_HORIZ then time_hm 10 30
      else if h = NAUTI_HORIZ then time_hm 11 0
      else if h = CIVIL_HORIZ then time_hm 11 32
      else time_hm 12 0 - 30000000)"

definition sample_set_at :: "string \<Rightarrow> int" where
  "sample_set_at h =
     (if h = ASTRO_HORIZ then time_hm 23 27
      else if h = NAUTI_HORIZ then time_hm 22 56
      else if h = CIVIL_HORIZ then time_hm 22 24
      else time_hm 21 55)"

definition sample_period :: int where
  "sample_period = usec_per_day + 60000000"

definition sample_previous_rising :: "Observer \<Rightarrow> instant" where
  "sample_previous_rising obs =
     sample_rise_at (horizon obs) +
     sample_period * ((Observer.date obs - sample_rise_at (horizon obs)) div sample_period)"

definition sample_next_setting :: "Observer \<Rightarrow> instant" where
  "sample_next_setting obs =
     sample_set_at (horizon obs) -
     sample_period * ((sample_set_at (horizon obs) - Observer.date obs) div sample_period)"

definition sample_utcoffset :: "string \<Rightarrow> instant \<Rightarrow> int" where
  "sample_utcoffset zone t = (if zone = ''America/New_York'' then - time_hm 5 0 else 0)"

definition sample_float_str :: "real \<Rightarrow> string" where
  \<comment> \<open>\<open>str\<close> of the doubles 37.5 and -76.5, the only ones the sample mission prints\<close>
  "sample_float_str x =
     (if x = 75 / 2 then ''37.5'' else if x = - (153 / 2) then ''-76.5'' else ''nan'')"

definition sample_ext :: ext where
  \<comment> \<open>the means the sample missions take, of 37 and 38, of -77 and -76 and of 36 and
      39, are doubles, so no rounding occurs\<close>
  "sample_ext = \<lparr>previous_rising = sample_previous_rising, next_setting = sample_next_setting,
              utcoffset = sample_utcoffset,
              float_mean = (\<lambda>a b. (a + b) / 2), float_str = sample_float_str\<rparr>"

definition sample_point :: "real \<Rightarrow> real \<Rightarrow> instant option \<Rightarrow> GPXTrackPoint" where
  "sample_point la lo t = \<lparr>GPXTrackPoint.latitude = la, longitude = lo, time = t\<rparr>"

definition sample_gpx :: GPXData where
  "sample_gpx =
     \<lparr>tracks =
        [\<lparr>segments = [\<lparr>points = [sample_point 37 (-78) None]\<rparr>],
          name = Some ''Base to RIC'', description = None\<rparr>,
         \<lparr>segments = [\<lparr>points = [sample_point 39 (-76) (Some (combine 0 (time_hm 3 0))),
                                  sample_point 38 (-77) (Some (combine 0 (time_hm 11 0)))]\<rparr>,
                      \<lparr>points = [sample_point 36 (-75) (Some (combine 1 (time_hm 22 30)))]\<rparr>],
          name = Some ''RVA to RIC'', description = Some ''second leg''\<rparr>]\<rparr>"

definition sample_observer :: Observer where
  "sample_observer = \<lparr>lat = ''37.5'', lon = ''-76.5'', Observer.date = combine 0 (time_hm 3 0), horizon = ''0''\<rparr>"

definition sample_self :: GPX where
  "sample_self = \<lparr>gpx_data = sample_gpx, observer = sample_observer, start_date = 0, end_date = 1\<rparr>"

definition sample_self' :: GPX where
  "sample_self' = sample_self\<lparr>observer := sample_observer\<lparr>Observer.date := combine 1 (time_hm 12 0), horizon := SHINE_HORIZ\<rparr>\<rparr>"

definition sample_event :: "string \<Rightarrow> string \<Rightarrow> instant \<Rightarrow> event" where
  "sample_event p d t = \<lparr>event.phase = p, direction = d, datetime = t\<rparr>"

definition sample_timeline :: "event list" where
  "sample_timeline =
     [sample_event ASTRO ''rise'' (combine 0 (time_hm 10 30)),
      sample_event NAUTI ''rise'' (combine 0 (time_hm 11 0)),
      sample_event CIVIL ''rise'' (combine 0 (time_hm 11 32)),
      sample_event SHINE ''rise'' (combine 0 (time_hm 12 0) - 30000000),
      sample_event SHINE ''rise'' (combine 0 (time_hm 12 0) - 30000000),
      sample_event CIVIL ''set'' (combine 0 (time_hm 21 55)),
      sample_event NAUTI ''set'' (combine 0 (time_hm 22 24)),
      sample_event ASTRO ''set'' (combine 0 (time_hm 22 56)),
      sample_event NIGHT ''set'' (combine 0 (time_hm 23 27)),
      sample_event ASTRO ''rise'' (combine 1 (time_hm 10 31)),
      sample_event NAUTI ''rise'' (combine 1 (time_hm 11 1)),
      sample_event CIVIL ''rise'' (combine 1 (time_hm 11 33)),
      sample_event CIVIL ''set'' (combine 1 (time_hm 21 56)),
      sample_event NAUTI ''set'' (combine 1 (time_hm 22 25)),
      sample_event ASTRO ''set'' (combine 1 (time_hm 22 57)),
      sample_event NIGHT ''set'' (combine 1 (time_hm 23 28))]"

definition sample_parsed ::
  "real \<Rightarrow> real \<Rightarrow> instant option \<Rightarrow> nat \<Rightarrow> string option \<Rightarrow> string option \<Rightarrow> parsed_row" where
  "sample_parsed la lo u i n d =
     \<lparr>parsed_row.latitude = la, longitude = lo, utc = u, id' = i, name = n, description = d\<rparr>"

definition sample_frame :: "parsed_row list" where
  "sample_frame =
     [sample_parsed 37 (-78) None 0 (Some ''Base to RIC'') None,
      sample_parsed 39 (-76) (Some (combine 0 (time_hm 3 0))) 1 (Some ''RVA to RIC'') (Some ''second leg''),
      sample_parsed 38 (-77) (Some (combine 0 (time_hm 11 0))) 1 (Some ''RVA to RIC'') (Some ''second leg''),
      sample_parsed 36 (-75) (Some (combine 1 (time_hm 22 30))) 1 (Some ''RVA to RIC'') (Some ''second leg'')]"

definition sample_out :: "out_row list" where
  "sample_out =
     [\<lparr>parsed_row.latitude = 37, longitude = -78, utc = None, id' = 0,
       name = Some ''Base to RIC'', description = None,
       utc_date = None, utc_time = None, local = None,
       timed_row.date = None, timed_row.time = None,
       phased_row.phase = PLANS, start_phase = PLANS, end_phase = PLANS\<rparr>,
      \<lparr>parsed_row.latitude = 39, longitude = -76, utc = Some (combine 0 (time_hm 3 0)), id' = 1,
       name = Some ''RVA to RIC'', description = Some ''second leg'',
       utc_date = Some (combine 0 0), utc_time = Some (time_hm 3 0),
       local = Some (combine (- 1) (time_hm 22 0)),
       timed_row.date = Some (combine (- 1) 0), timed_row.time = Some (time_hm 22 0),
       phased_row.phase = NIGHT, start_phase = NIGHT, end_phase = NAUTI\<rparr>,
      \<lparr>parsed_row.latitude = 38, longitude = -77, utc = Some (combine 0 (time_hm 11 0)), id' = 1,
       name = Some ''RVA to RIC'', description = Some ''second leg'',
       utc_date = Some (combine 0 0), utc_time = Some (time_hm 11 0),
       local = Some (combine 0 (time_hm 6 0)),
       timed_row.date = Some (combine 0 0), timed_row.time = Some (time_hm 6 0),
       phased_row.phase = NAUTI, start_phase = NIGHT, end_phase = NAUTI\<rparr>,
      \<lparr>parsed_row.latitude = 36, longitude = -75, utc = Some (combine 1 (time_hm 22 30)), id' = 1,
       name = Some ''RVA to RIC'', description = Some ''second leg'',
       utc_date = Some (combine 1 0), utc_time = Some (time_hm 22 30),
       local = Some (combine 1 (time_hm 17 30)),
       timed_row.date = Some (combine 1 0), timed_row.time = Some (time_hm 17 30),
       phased_row.phase = NAUTI, start_phase = NIGHT, end_phase = NAUTI\<rparr>]"

text \<open>A frame of one track whose rows are not in the order of their timestamps.\<close>

definition unordered_frame :: "parsed_row list" where
  "unordered_frame =
     [sample_parsed 36 (-75) (Some (combine 1 (time_hm 22 30))) 0 (Some ''Unordered'') None,
      sample_parsed 39 (-76) (Some (combine 0 (time_hm 3 0))) 0 (Some ''Unordered'') None]"

definition unordered_out :: "out_row list" where
  "unordered_out =
     [\<lparr>parsed_row.latitude = 36, longitude = -75, utc = Some (combine 1 (time_hm 22 30)), id' = 0,
       name = Some ''Unordered'', description = None,
       utc_date = Some (combine 1 0), utc_time = Some (time_hm 22 30),
       local = Some (combine 1 (time_hm 17 30)),
       timed_row.date = Some (combine 1 0), timed_row.time = Some (time_hm 17 30),
       phased_row.phase = NAUTI, start_phase = NAUTI, end_phase = NIGHT\<rparr>,
      \<lparr>parsed_row.latitude = 39, longitude = -76, utc = Some (combine 0 (time_hm 3 0)), id' = 0,
       name = Some ''Unordered'', description = None,
       utc_date = Some (combine 0 0), utc_time = Some (time_hm 3 0),
       local = Some (combine (- 1) (time_hm 22 0)),
       timed_row.date = Some (combine (- 1) 0), timed_row.time = Some (time_hm 22 0),
       phased_row.phase = NIGHT, start_phase = NAUTI, end_phase = NIGHT\<rparr>]"



text \<open>A frame of one point of day 1 at 15:00 UTC, 10:00 in the zone of the settings.\<close>

definition daylight_frame :: "parsed_row list" where
  "daylight_frame =
     [sample_parsed 38 (-77) (Some (combine 1 (time_hm 15 0))) 0 (Some ''Daylight'') None]"

definition daylight_out :: "out_row list" where
  "daylight_out =
     [\<lparr>parsed_row.latitude = 38, longitude = -77, utc = Some (combine 1 (time_hm 15 0)), id' = 0,
       name = Some ''Daylight'', description = None,
       utc_date = Some (combine 1 0), utc_time = Some (time_hm 15 0),
       local = Some (combine 1 (time_hm 10 0)),
       timed_row.date = Some (combine 1 0), timed_row.time = Some (time_hm 10 0),
       phased_row.phase = CIVIL, start_phase = CIVIL, end_phase = CIVIL\<rparr>]"

definition empty_gpx :: GPXData where
  "empty_gpx = \<lparr>tracks = []\<rparr>"

definition pointless_gpx :: GPXData where
  "pointless_gpx =
     \<lparr>tracks = [\<lparr>segments = [\<lparr>points = []\<rparr>], name = Some ''Base to RIC'', description = None\<rparr>]\<rparr>"

definition sample_timed :: "out_row list" where
  "sample_timed = [sample_out ! 1, sample_out ! 2, sample_out ! 3]"

definition sample_untimed :: "out_row list" where
  "sample_untimed = [sample_out ! 0]"

section \<open>The loops of \<open>sun_events\<close>\<close>

lemma observer_at_collapse [simp]:
  "observer_at (observer_at obs d h) d' h' = observer_at obs d' h'"
  "observer_at (obs\<lparr>Observer.date := x\<rparr>) d h = observer_at obs d h"
  "observer_at (obs\<lparr>horizon := y\<rparr>) d h = observer_at obs d h"
  by (simp_all add: observer_at_def)

lemma day_times_observer_at [simp]:
  "day_times X (observer_at obs d h) d' = day_times X obs d'"
  by (simp add: day_times_def)

lemma phases_loop_phases:
  "phases_loop X phases (acc, obs\<lparr>Observer.date := combine d (time_hm 12 0)\<rparr>) =
     (acc @ day_times X obs d, observer_at obs d SHINE_HORIZ)"
  by (simp add: phases_def day_times_def sun_event_def observer_at_def Let_def)

lemma days_loop_eq:
  "days_loop X sd ds (acc, obs) =
     (acc @ concat (map (\<lambda>d. day_times X obs (sd + int d)) ds),
      if ds = [] then obs else observer_at obs (sd + int (last ds)) SHINE_HORIZ)"
proof (induction ds arbitrary: acc obs)
  case Nil
  show ?case by simp
next
  case (Cons d ds)
  show ?case
    by (simp add: phases_loop_phases Cons.IH day_def)
qed

lemma map_range_upto: "map (\<lambda>n. s + int n) [0..<nat (e - s + 1)] = [s..e]"
proof (induction "nat (e - s + 1)" arbitrary: e)
  case 0
  then show ?case by simp
next
  case (Suc k)
  then have le: "s \<le> e" and k: "k = nat ((e - 1) - s + 1)" by linarith+
  have "nat (e - s + 1) = Suc k" using Suc by simp
  then have "map (\<lambda>n. s + int n) [0..<nat (e - s + 1)] =
             map (\<lambda>n. s + int n) [0..<k] @ [s + int k]" by simp
  also have "map (\<lambda>n. s + int n) [0..<k] = [s..e - 1]"
    using Suc.hyps(1)[OF k] k by simp
  also have "s + int k = e" using k le by simp
  finally show ?case using le by (simp add: upto_rec2)
qed

lemma range_days_upto:
  "map (\<lambda>n. start_date self + int n) (range_days self) = [start_date self..end_date self]"
  by (simp add: range_days_def day_def map_range_upto)

lemma collect_times_fst:
  "fst (collect_times X self) =
     concat (map (day_times X (observer self)) [start_date self..end_date self])"
proof -
  have "fst (collect_times X self) =
          concat (map (\<lambda>n. day_times X (observer self) (start_date self + int n)) (range_days self))"
    by (simp add: collect_times_def days_loop_eq)
  also have "\<dots> = concat (map (day_times X (observer self))
                        (map (\<lambda>n. start_date self + int n) (range_days self)))"
    by (simp add: comp_def)
  finally show ?thesis by (simp only: range_days_upto)
qed

lemma phase_names_distinct:
  "distinct [NIGHT, ASTRO, NAUTI, CIVIL, SHINE, PLANS]"
  by (simp add: NIGHT_def ASTRO_def NAUTI_def CIVIL_def SHINE_def PLANS_def)

lemma shift_loop_fold:
  "shift_loop ss tline = map (fold (\<lambda>(a, b). shift1 a b) ss) tline"
proof (induction ss arbitrary: tline)
  case Nil
  show ?case by (simp add: map_idI)
next
  case (Cons s ss)
  obtain a b where s: "s = (a, b)" by (cases s)
  show ?case
    by (simp add: s Cons.IH shift1_def comp_def)
qed

lemma shift_all_relabel:
  "fold (\<lambda>(a, b). shift1 a b) setting_shifts e = relabel e"
  using phase_names_distinct
  by (auto simp: setting_shifts_def shift1_def relabel_def setting_relabel_def)

lemma shift_loop_relabel: "shift_loop setting_shifts tline = map relabel tline"
  by (simp add: shift_loop_fold shift_all_relabel)

lemma datetime_relabel [simp]: "datetime (relabel e) = datetime e"
  by (simp add: relabel_def)

lemma direction_relabel [simp]: "direction (relabel e) = direction e"
  by (simp add: relabel_def)

lemma length_day_times [simp]: "length (day_times X obs d) = 4"
  by (simp add: day_times_def phases_def)

lemma day_times_not_Nil [simp]: "day_times X obs d \<noteq> []"
  using length_day_times [of X obs d] by (metis length_0_conv zero_neq_numeral)

lemma collect_times_Nil:
  "fst (collect_times X self) = [] \<longleftrightarrow> end_date self < start_date self"
  by (auto simp: collect_times_fst)

lemma collect_times_snd:
  "start_date self \<le> end_date self \<Longrightarrow>
   snd (collect_times X self) = observer_at (observer self) (end_date self) SHINE_HORIZ"
  by (simp add: collect_times_def days_loop_eq range_days_def day_def)

lemma sun_events_eq:
  "sun_events X self =
     (if end_date self < start_date self then Inl KeyError
      else Inr (map relabel (sort_values (melt (fst (collect_times X self)))),
                self\<lparr>observer := observer_at (observer self) (end_date self) SHINE_HORIZ\<rparr>))"
proof (cases "end_date self < start_date self")
  case True
  then have "fst (collect_times X self) = []" by (simp add: collect_times_Nil)
  then show ?thesis using True
    by (cases "collect_times X self") (simp add: sun_events_def)
next
  case False
  then have ne: "fst (collect_times X self) \<noteq> []" by (simp add: collect_times_Nil)
  have sn: "snd (collect_times X self) = observer_at (observer self) (end_date self) SHINE_HORIZ"
    using False by (simp add: collect_times_snd)
  show ?thesis using False ne sn
    by (cases "collect_times X self") (simp add: sun_events_def shift_loop_relabel)
qed

lemma day_times_observer_at_fun [simp]:
  "day_times X (observer_at obs d h) = day_times X obs"
  by (rule ext) simp

lemma datetime_comp_relabel [simp]: "datetime \<circ> relabel = datetime"
  by (simp add: fun_eq_iff)

lemma collect_times_state [simp]:
  "fst (collect_times X (self\<lparr>observer := observer_at (observer self) d h\<rparr>)) =
   fst (collect_times X self)"
  by (simp add: collect_times_fst)

lemma sun_events_again:
  assumes "sun_events X self = Inr (tline, self')"
  shows "sun_events X self' = Inr (tline, self')"
  using assms by (auto simp: sun_events_eq split: if_splits)

lemma sun_events_fields:
  assumes "sun_events X self = Inr (tline, self')"
  shows "gpx_data self' = gpx_data self" "start_date self' = start_date self"
        "end_date self' = end_date self"
  using assms by (auto simp: sun_events_eq split: if_splits)

lemma sun_events_sorted:
  assumes "sun_events X self = Inr (tline, self')"
  shows "sorted (map datetime tline)"
  using assms by (auto simp: sun_events_eq sort_values_def split: if_splits)

lemma length_melt [simp]: "length (melt ts) = 2 * length ts"
  by (simp add: melt_def)

section \<open>The classifier\<close>

lemma events_loop_scan:
  "events_loop evs df =
     map (\<lambda>r. r\<lparr>phased_row.phase := scan (utc r) evs (phased_row.phase r)\<rparr>) df"
proof (induction evs arbitrary: df)
  case Nil
  show ?case by (simp add: map_idI)
next
  case (Cons ev evs)
  show ?case
    by (simp add: Cons.IH loc_set_phase_def comp_def)
qed

lemma scan_None [simp]: "scan None evs p = p"
  by (induction evs arbitrary: p) (simp_all add: utc_ge_def)

lemma scan_snoc:
  "scan u (evs @ [ev]) p = (if utc_ge u (datetime ev) then event.phase ev else scan u evs p)"
  by (induction evs arbitrary: p) simp_all

lemma latest_breakpoint_snoc:
  "latest_breakpoint (evs @ [ev]) t =
     (if datetime ev \<le> t then Some ev else latest_breakpoint evs t)"
  by (simp add: latest_breakpoint_def)

lemma latest_breakpoint_Nil [simp]: "latest_breakpoint [] t = None"
  by (simp add: latest_breakpoint_def)

lemma scan_Some:
  "scan (Some t) evs p =
     (case latest_breakpoint evs t of None \<Rightarrow> p | Some b \<Rightarrow> event.phase b)"
  by (induction evs rule: rev_induct)
     (simp_all add: scan_snoc latest_breakpoint_snoc utc_ge_def)

lemma classify_eq:
  "classify evs df =
     map (\<lambda>r. timed_row.extend r \<lparr>phased_row.phase = assigned_phase evs (utc r)\<rparr>) df"
  by (auto simp: classify_def events_loop_scan loc_set_phase_def assigned_phase_def scan_Some
                 timed_row.defs
           split: option.splits)

lemma concat_map_single:
  "(\<And>x. x \<in> set xs \<Longrightarrow> f x = [g x]) \<Longrightarrow> concat (map f xs) = map g xs"
  by (induction xs) simp_all

lemma groupby_first_in:
  "r \<in> set df \<Longrightarrow> groupby_first df (id' r) = Some (first_phase df (id' r))"
proof -
  assume "r \<in> set df"
  then have "filter (\<lambda>x. id' x = id' r) df \<noteq> []"
    by (auto simp: filter_empty_conv)
  then show ?thesis
    by (cases "filter (\<lambda>x. id' x = id' r) df") (simp_all add: groupby_first_def first_phase_def)
qed

lemma groupby_last_in:
  "r \<in> set df \<Longrightarrow> groupby_last df (id' r) = Some (last_phase df (id' r))"
proof -
  assume "r \<in> set df"
  then have ne: "filter (\<lambda>x. id' x = id' r) df \<noteq> []"
    by (auto simp: filter_empty_conv)
  then have "rev (filter (\<lambda>x. id' x = id' r) df) \<noteq> []" by simp
  then obtain y ys where yy: "rev (filter (\<lambda>x. id' x = id' r) df) = y # ys"
    by (cases "rev (filter (\<lambda>x. id' x = id' r) df)") auto
  then have "last (filter (\<lambda>x. id' x = id' r) df) = y"
    using ne by (metis hd_rev list.sel(1))
  then show ?thesis using yy
    by (simp add: groupby_last_def last_phase_def)
qed

lemma merge_eq:
  "merge_end (merge_start df (groupby_first df)) (groupby_last df) = map (summarised df) df"
proof -
  have a: "merge_start df (groupby_first df) =
           map (\<lambda>r. phased_row.extend r \<lparr>start_phase = first_phase df (id' r)\<rparr>) df"
    unfolding merge_start_def
    by (rule concat_map_single) (simp add: groupby_first_in)
  have b: "merge_end (map (\<lambda>r. phased_row.extend r \<lparr>start_phase = first_phase df (id' r)\<rparr>) df)
             (groupby_last df) = map (summarised df) df"
    unfolding merge_end_def map_map
    by (rule concat_map_single)
       (simp add: groupby_last_in summarised_def phased_row.defs)
  show ?thesis by (simp only: a b)
qed

lemma summarised_cols [simp]:
  "utc (summarised df r) = utc r"
  "id' (summarised df r) = id' r"
  "phased_row.phase (summarised df r) = phased_row.phase r"
  "start_phase (summarised df r) = first_phase df (id' r)"
  "end_phase (summarised df r) = last_phase df (id' r)"
  "parsed_row.truncate (summarised df r) = parsed_row.truncate r"
  by (simp_all add: summarised_def phased_row.defs start_row.defs parsed_row.defs)

lemma phased_cols [simp]:
  "utc (timed_row.extend r \<lparr>phased_row.phase = p\<rparr>) = utc r"
  "id' (timed_row.extend r \<lparr>phased_row.phase = p\<rparr>) = id' r"
  "phased_row.phase (timed_row.extend r \<lparr>phased_row.phase = p\<rparr>) = p"
  "parsed_row.truncate (timed_row.extend r \<lparr>phased_row.phase = p\<rparr>) = parsed_row.truncate r"
  by (simp_all add: timed_row.defs parsed_row.defs)

lemma expand_row_cols [simp]:
  "utc (expand_row X r) = utc r"
  "id' (expand_row X r) = id' r"
  "parsed_row.truncate (expand_row X r) = r"
  by (simp_all add: expand_row_def parsed_row.defs Let_def)

lemma expand_time_info_eq:
  "expand_time_info X self df =
     (if df = [] then Inl AttributeError
      else if list_all (\<lambda>r. utc r = None) df then Inl TypeError
      else case sun_events X self of
             Inl e \<Rightarrow> Inl e
           | Inr (tline, self') \<Rightarrow>
               Inr (map (summarised (classify tline (map (expand_row X) df)))
                        (classify tline (map (expand_row X) df)), self'))"
  by (simp add: expand_time_info_def merge_eq Let_def split: sum.splits prod.splits)

section \<open>The sample mission, evaluated\<close>


lemma sample_sun_events: "sun_events sample_ext sample_self = Inr (sample_timeline, sample_self')"
  by code_simp

lemma sample_sun_events_again:
  "sun_events sample_ext sample_self' = Inr (sample_timeline, sample_self')"
  by code_simp

lemma sample_expand:
  "expand_time_info sample_ext sample_self sample_frame = Inr (sample_out, sample_self')"
  by code_simp

lemma sample_track_data:
  "track_data sample_ext sample_self None = Inr (sample_out, sample_self')"
  by code_simp

lemma unordered_expand:
  "expand_time_info sample_ext sample_self unordered_frame = Inr (unordered_out, sample_self')"
  by code_simp

section \<open>The observer\<close>





section \<open>The timeline and the rows of the output\<close>

lemma latest_breakpoint_SomeD:
  assumes "latest_breakpoint tline t = Some b"
  shows "b \<in> set tline" "datetime b \<le> t"
        "\<exists>ys. filter (\<lambda>e. datetime e \<le> t) tline = ys @ [b]"
proof -
  from assms obtain zs where "rev (filter (\<lambda>e. datetime e \<le> t) tline) = b # zs"
    by (auto simp: latest_breakpoint_def split: list.splits)
  then have f: "filter (\<lambda>e. datetime e \<le> t) tline = rev zs @ [b]"
    by (simp add: rev_swap)
  then show "\<exists>ys. filter (\<lambda>e. datetime e \<le> t) tline = ys @ [b]" by blast
  have "b \<in> set (filter (\<lambda>e. datetime e \<le> t) tline)" by (simp add: f)
  then show "b \<in> set tline" "datetime b \<le> t" by simp_all
qed

lemma latest_breakpoint_None:
  "latest_breakpoint tline t = None \<longleftrightarrow> (\<forall>e\<in>set tline. t < datetime e)"
proof -
  have "latest_breakpoint tline t = None \<longleftrightarrow> filter (\<lambda>e. datetime e \<le> t) tline = []"
    by (cases "rev (filter (\<lambda>e. datetime e \<le> t) tline)")
       (simp_all add: latest_breakpoint_def)
  then show ?thesis by (auto simp: filter_empty_conv not_le)
qed

lemma latest_breakpoint_max:
  assumes "sorted (map datetime tline)" "latest_breakpoint tline t = Some b"
      and "e \<in> set tline" "datetime e \<le> t"
  shows "datetime e \<le> datetime b"
proof -
  from latest_breakpoint_SomeD(3) [OF assms(2)]
  obtain ys where f: "filter (\<lambda>e. datetime e \<le> t) tline = ys @ [b]" by blast
  have "sorted (map datetime (filter (\<lambda>e. datetime e \<le> t) tline))"
    using assms(1) by (rule sorted_filter)
  then have "\<forall>y\<in>set ys. datetime y \<le> datetime b"
    by (simp add: f sorted_append)
  moreover have "e \<in> set (ys @ [b])"
    using assms(3,4) f [symmetric] by simp
  ultimately show ?thesis by auto
qed

lemma sun_times_phase_day_times:
  "t \<in> set (day_times X obs d) \<Longrightarrow> sun_times.phase t \<in> {ASTRO, NAUTI, CIVIL, SHINE}"
  by (auto simp: day_times_def phases_def)

lemma melt_set:
  "e \<in> set (melt ts) \<Longrightarrow>
   \<exists>t\<in>set ts. event.phase e = sun_times.phase t \<and> (direction e = ''rise'' \<or> direction e = ''set'')"
  by (auto simp: melt_def)

lemma relabel_phase_in:
  "event.phase e \<in> {ASTRO, NAUTI, CIVIL, SHINE} \<Longrightarrow>
   event.phase (relabel e) \<in> {NIGHT, ASTRO, NAUTI, CIVIL, SHINE}"
  by (auto simp: relabel_def setting_relabel_def)

lemma sun_events_phase_in:
  assumes "sun_events X self = Inr (tline, self')" "e \<in> set tline"
  shows "event.phase e \<in> {NIGHT, ASTRO, NAUTI, CIVIL, SHINE}"
proof -
  from assms obtain e0 where e0: "e0 \<in> set (melt (fst (collect_times X self)))" "e = relabel e0"
    by (auto simp: sun_events_eq sort_values_def split: if_splits)
  from melt_set [OF e0(1)] obtain t where
    t: "t \<in> set (fst (collect_times X self))" "event.phase e0 = sun_times.phase t" by blast
  from t(1) obtain d where "t \<in> set (day_times X (observer self) d)"
    by (auto simp: collect_times_fst)
  then have "event.phase e0 \<in> {ASTRO, NAUTI, CIVIL, SHINE}"
    using sun_times_phase_day_times t(2) by metis
  then show ?thesis unfolding e0(2) by (rule relabel_phase_in)
qed

lemma sun_events_not_PLANS:
  assumes "sun_events X self = Inr (tline, self')" "e \<in> set tline"
  shows "event.phase e \<noteq> PLANS"
  using sun_events_phase_in [OF assms] phase_names_distinct by auto

lemma sun_events_not_Nil:
  assumes "sun_events X self = Inr (tline, self')"
  shows "tline \<noteq> []"
proof -
  from assms have le: "\<not> end_date self < start_date self"
    and "length tline = 2 * length (fst (collect_times X self))"
    by (auto simp: sun_events_eq sort_values_def split: if_splits)
  moreover have "fst (collect_times X self) \<noteq> []"
    using le by (simp add: collect_times_Nil)
  ultimately show ?thesis by auto
qed

lemma expand_time_info_InrD:
  assumes "expand_time_info X self df = Inr (out, self')"
  shows "\<exists>tline. sun_events X self = Inr (tline, self') \<and>
           out = map (summarised (classify tline (map (expand_row X) df)))
                     (classify tline (map (expand_row X) df))"
        "df \<noteq> []" "\<not> list_all (\<lambda>r. utc r = None) df"
  using assms
  by (auto simp: expand_time_info_eq split: if_splits sum.splits)

lemma out_row_phase:
  assumes "expand_time_info X self df = Inr (out, self')"
      and "sun_events X self = Inr (tline, self'')"
      and "r \<in> set out"
  shows "phased_row.phase r = assigned_phase tline (utc r)"
proof -
  from expand_time_info_InrD(1) [OF assms(1)] assms(2)
  have out: "out = map (summarised (classify tline (map (expand_row X) df)))
                       (classify tline (map (expand_row X) df))"
    by auto
  from assms(3) show ?thesis
    unfolding out by (auto simp: classify_eq)
qed

lemma expand_time_info_again:
  assumes "expand_time_info X self df = Inr (out, self')"
  shows "expand_time_info X self' df = Inr (out, self')" "gpx_data self' = gpx_data self"
proof -
  from expand_time_info_InrD [OF assms] obtain tline where
    t: "sun_events X self = Inr (tline, self')"
    and out: "out = map (summarised (classify tline (map (expand_row X) df)))
                        (classify tline (map (expand_row X) df))"
    and ne: "df \<noteq> []" "\<not> list_all (\<lambda>r. utc r = None) df"
    by blast
  show "gpx_data self' = gpx_data self" using t by (rule sun_events_fields)
  show "expand_time_info X self' df = Inr (out, self')"
    using sun_events_again [OF t] ne out by (simp add: expand_time_info_eq)
qed

lemma enumerate_Nil_iff [simp]: "enumerate n xs = [] \<longleftrightarrow> xs = []"
  by (cases xs) simp_all

lemma track_data_again:
  assumes "track_data X self None = Inr (df, self')"
  shows "track_data X self' time' =
           (case time' of
              None \<Rightarrow> Inr (df, self')
            | Some True \<Rightarrow> Inr (filter (\<lambda>r. utc r \<noteq> None) df, self')
            | Some False \<Rightarrow> Inr (filter (\<lambda>r. utc r = None) df, self'))"
proof -
  define F where "F = concat (map (\<lambda>(index, track). parse_track track index)
                                   (enumerate 0 (tracks (gpx_data self))))"
  from assms have ne: "tracks (gpx_data self) \<noteq> []"
    and e: "expand_time_info X self F = Inr (df, self')"
    by (auto simp: track_data_def F_def Let_def split: if_splits sum.splits)
  from expand_time_info_again [OF e]
  have e': "expand_time_info X self' F = Inr (df, self')" and g: "gpx_data self' = gpx_data self"
    by simp_all
  show ?thesis
    using ne e' by (simp add: track_data_def g F_def [symmetric] Let_def)
qed



lemma classify_truncate:
  "map parsed_row.truncate (classify tline (map (expand_row X) df)) = df"
  by (simp add: classify_eq comp_def map_idI)

lemma filter_summarised:
  "filter (\<lambda>x. id' x = i) (map (summarised D) D') =
   map (summarised D) (filter (\<lambda>x. id' x = i) D')"
  by (simp add: filter_map comp_def)

lemma mset_filter_split:
  "mset (filter P xs) =
   mset (filter P (filter Q xs)) + mset (filter P (filter (\<lambda>x. \<not> Q x) xs))"
  by (induction xs) (simp_all del: mset_filter filter_filter)

lemma length_filter_split:
  "length (filter P xs) =
   length (filter P (filter Q xs)) + length (filter P (filter (\<lambda>x. \<not> Q x) xs))"
  by (induction xs) (simp_all del: filter_filter)

lemma same_mission_observer_at:
  "same_mission a b \<Longrightarrow> observer_at (observer a) d h = observer_at (observer b) d h"
  by (simp add: same_mission_def observer_at_def)

lemma same_mission_day_times:
  "same_mission a b \<Longrightarrow> day_times X (observer a) = day_times X (observer b)"
  by (rule ext) (simp add: day_times_def same_mission_observer_at)

lemma same_mission_sun_events:
  assumes "same_mission a b"
  shows "sun_events X a = sun_events X b"
proof -
  have d: "start_date a = start_date b" "end_date a = end_date b"
    using assms by (simp_all add: same_mission_def)
  have c: "fst (collect_times X a) = fst (collect_times X b)"
    by (simp add: collect_times_fst same_mission_day_times [OF assms] d)
  have s: "a\<lparr>observer := obs\<rparr> = b\<lparr>observer := obs\<rparr>" for obs
    using assms by (simp add: same_mission_def)
  show ?thesis
    by (simp add: sun_events_eq c d s same_mission_observer_at [OF assms])
qed

lemma same_mission_track_data:
  assumes "same_mission a b"
  shows "track_data X a time' = track_data X b time'"
proof -
  have "expand_time_info X a df = expand_time_info X b df" for df
    by (simp add: expand_time_info_def same_mission_sun_events [OF assms])
  moreover have "gpx_data a = gpx_data b" using assms by (simp add: same_mission_def)
  ultimately show ?thesis by (simp add: track_data_def)
qed

lemma same_mission_after:
  assumes "track_data X self time' = Inr (df, self')"
  shows "same_mission self self'"
proof -
  from assms obtain F out where "expand_time_info X self F = Inr (out, self')"
    by (auto simp: track_data_def Let_def split: if_splits sum.splits option.splits bool.splits)
  then obtain tline where "sun_events X self = Inr (tline, self')"
    using expand_time_info_InrD(1) by blast
  then show ?thesis
    by (auto simp: sun_events_eq same_mission_def observer_at_def split: if_splits)
qed

section \<open>The claims\<close>

text \<open>
  Claim C1. A record with a timestamp \<open>t\<close> at or after the instant of some breakpoint gets
  the phase of the latest breakpoint at or before \<open>t\<close>: the last one, in the order of the
  timeline, whose instant is at most \<open>t\<close>, and no breakpoint with an instant at most \<open>t\<close>
  is later. A record whose timestamp equals the instant of a breakpoint gets the phase
  of a breakpoint of that very instant.
\<close>

theorem classifier_latest_breakpoint:
  assumes "expand_time_info X self df = Inr (out, self')"
      and "sun_events X self = Inr (tline, self'')"
      and "r \<in> set out" and "utc r = Some t"
      and "\<exists>e\<in>set tline. datetime e \<le> t"
  shows "\<exists>b. latest_breakpoint tline t = Some b \<and> b \<in> set tline \<and> datetime b \<le> t \<and>
             (\<forall>e\<in>set tline. datetime e \<le> t \<longrightarrow> datetime e \<le> datetime b) \<and>
             phased_row.phase r = event.phase b \<and>
             ((\<exists>e\<in>set tline. datetime e = t) \<longrightarrow> datetime b = t)"
proof -
  from assms(5) have "latest_breakpoint tline t \<noteq> None"
    by (auto simp: latest_breakpoint_None not_less)
  then obtain b where b: "latest_breakpoint tline t = Some b" by auto
  have in_t: "b \<in> set tline" and le: "datetime b \<le> t"
    using latest_breakpoint_SomeD [OF b] by simp_all
  have mx: "\<forall>e\<in>set tline. datetime e \<le> t \<longrightarrow> datetime e \<le> datetime b"
    using latest_breakpoint_max [OF sun_events_sorted [OF assms(2)] b] by blast
  have ph: "phased_row.phase r = event.phase b"
    using out_row_phase [OF assms(1-3)] assms(4) b by (simp add: assigned_phase_def)
  have cl: "(\<exists>e\<in>set tline. datetime e = t) \<longrightarrow> datetime b = t"
    using mx le by fastforce
  show ?thesis using b in_t le mx ph cl by blast
qed

theorem classifier_latest_breakpoint_witness:
  "expand_time_info sample_ext sample_self sample_frame = Inr (sample_out, sample_self') \<and>
   sun_events sample_ext sample_self = Inr (sample_timeline, sample_self') \<and>
   sample_out ! 2 \<in> set sample_out \<and>
   utc (sample_out ! 2) = Some (combine 0 (time_hm 11 0)) \<and>
   sample_timeline ! 1 \<in> set sample_timeline \<and>
   datetime (sample_timeline ! 1) = combine 0 (time_hm 11 0) \<and>
   latest_breakpoint sample_timeline (combine 0 (time_hm 11 0)) = Some (sample_timeline ! 1) \<and>
   phased_row.phase (sample_out ! 2) = event.phase (sample_timeline ! 1) \<and>
   event.phase (sample_timeline ! 1) = NAUTI"
proof -
  have h3: "sample_out ! 2 \<in> set sample_out" by (simp add: sample_out_def)
  have h4: "utc (sample_out ! 2) = Some (combine 0 (time_hm 11 0))" by (simp add: sample_out_def)
  have e1: "sample_timeline ! 1 \<in> set sample_timeline" by (simp add: sample_timeline_def)
  have e2: "datetime (sample_timeline ! 1) = combine 0 (time_hm 11 0)" by code_simp
  have h5: "\<exists>e\<in>set sample_timeline. datetime e \<le> combine 0 (time_hm 11 0)"
    using e1 e2 by (intro bexI [of _ "sample_timeline ! 1"]) simp_all
  have lb: "latest_breakpoint sample_timeline (combine 0 (time_hm 11 0)) = Some (sample_timeline ! 1)"
    by code_simp
  have ph: "event.phase (sample_timeline ! 1) = NAUTI"
    by (simp add: sample_timeline_def sample_event_def)
  from classifier_latest_breakpoint [OF sample_expand sample_sun_events h3 h4 h5] lb
  have "phased_row.phase (sample_out ! 2) = event.phase (sample_timeline ! 1)"
    by auto
  then show ?thesis using sample_expand sample_sun_events h3 h4 e1 e2 lb ph by blast
qed

text \<open>
  Claim C2. The timeline is the sorted frame of rise and set events with every event
  relabelled once by \<open>relabel\<close>: a rise event keeps its phase, a set event gets
  \<open>setting_relabel\<close> of its phase, which sends Astronomical to Night, Nautical to
  Astronomical, Civil to Nautical and Daytime to Civil (and not further).
\<close>

theorem sun_events_relabelled:
  assumes "sun_events X self = Inr (tline, self')"
  shows "tline = map relabel (sort_values (melt (fst (collect_times X self)))) \<and>
         (\<forall>e. direction e = ''rise'' \<longrightarrow> relabel e = e) \<and>
         (\<forall>e. direction e = ''set'' \<longrightarrow>
              relabel e = e\<lparr>event.phase := setting_relabel (event.phase e)\<rparr>) \<and>
         setting_relabel ASTRO = NIGHT \<and> setting_relabel NAUTI = ASTRO \<and>
         setting_relabel CIVIL = NAUTI \<and> setting_relabel SHINE = CIVIL"
proof -
  have t: "tline = map relabel (sort_values (melt (fst (collect_times X self))))"
    using assms by (auto simp: sun_events_eq split: if_splits)
  have r: "setting_relabel ASTRO = NIGHT" "setting_relabel NAUTI = ASTRO"
          "setting_relabel CIVIL = NAUTI" "setting_relabel SHINE = CIVIL"
    using phase_names_distinct by (auto simp: setting_relabel_def)
  show ?thesis
    using t r by (simp add: relabel_def)
qed

theorem sun_events_relabelled_witness:
  "sun_events sample_ext sample_self = Inr (sample_timeline, sample_self') \<and>
   sample_timeline = map relabel (sort_values (melt (fst (collect_times sample_ext sample_self)))) \<and>
   sort_values (melt (fst (collect_times sample_ext sample_self))) ! 5 =
     sample_event SHINE ''set'' (combine 0 (time_hm 21 55)) \<and>
   sample_timeline ! 5 = sample_event CIVIL ''set'' (combine 0 (time_hm 21 55)) \<and>
   sort_values (melt (fst (collect_times sample_ext sample_self))) ! 3 =
     sample_event SHINE ''rise'' (combine 0 (time_hm 12 0) - 30000000) \<and>
   sample_timeline ! 3 = sample_event SHINE ''rise'' (combine 0 (time_hm 12 0) - 30000000)"
proof -
  have a: "sort_values (melt (fst (collect_times sample_ext sample_self))) ! 5 =
             sample_event SHINE ''set'' (combine 0 (time_hm 21 55))"
    by code_simp
  have b: "sort_values (melt (fst (collect_times sample_ext sample_self))) ! 3 =
             sample_event SHINE ''rise'' (combine 0 (time_hm 12 0) - 30000000)"
    by code_simp
  have c: "sample_timeline ! 5 = sample_event CIVIL ''set'' (combine 0 (time_hm 21 55))"
          "sample_timeline ! 3 = sample_event SHINE ''rise'' (combine 0 (time_hm 12 0) - 30000000)"
    by (simp_all add: sample_timeline_def)
  from sun_events_relabelled [OF sample_sun_events]
  have "sample_timeline = map relabel (sort_values (melt (fst (collect_times sample_ext sample_self))))"
    by blast
  then show ?thesis using sample_sun_events a b c by blast
qed




text \<open>
  Claim C4, as the code has it. A record with a timestamp earlier than the first
  breakpoint of the timeline is given \<open>Night\<close>, which is not the default \<open>Planning\<close>
  of the records without a timestamp.
\<close>

theorem before_first_breakpoint_Night:
  assumes "expand_time_info X self df = Inr (out, self')"
      and "sun_events X self = Inr (tline, self'')"
      and "r \<in> set out" and "utc r = Some t"
      and "t < datetime (hd tline)"
  shows "phased_row.phase r = NIGHT \<and> phased_row.phase r \<noteq> PLANS"
proof -
  have ne: "tline \<noteq> []" using assms(2) by (rule sun_events_not_Nil)
  have "sorted (map datetime tline)" using assms(2) by (rule sun_events_sorted)
  then have "\<forall>e\<in>set tline. datetime (hd tline) \<le> datetime e"
    using ne by (cases tline) auto
  then have "\<forall>e\<in>set tline. t < datetime e" using assms(5) by fastforce
  then have "latest_breakpoint tline t = None" by (simp add: latest_breakpoint_None)
  then have "phased_row.phase r = NIGHT"
    using out_row_phase [OF assms(1-3)] assms(4) by (simp add: assigned_phase_def)
  then show ?thesis using phase_names_distinct by simp
qed

theorem before_first_breakpoint_Night_witness:
  "expand_time_info sample_ext sample_self sample_frame = Inr (sample_out, sample_self') \<and>
   sun_events sample_ext sample_self = Inr (sample_timeline, sample_self') \<and>
   sample_out ! 1 \<in> set sample_out \<and>
   utc (sample_out ! 1) = Some (combine 0 (time_hm 3 0)) \<and>
   combine 0 (time_hm 3 0) < datetime (hd sample_timeline) \<and>
   phased_row.phase (sample_out ! 1) = NIGHT"
proof -
  have h3: "sample_out ! 1 \<in> set sample_out" by (simp add: sample_out_def)
  have h4: "utc (sample_out ! 1) = Some (combine 0 (time_hm 3 0))" by (simp add: sample_out_def)
  have h5: "combine 0 (time_hm 3 0) < datetime (hd sample_timeline)" by code_simp
  from before_first_breakpoint_Night [OF sample_expand sample_sun_events h3 h4 h5]
  show ?thesis using sample_expand sample_sun_events h3 h4 h5 by blast
qed

theorem before_first_breakpoint_counterexample:
  "expand_time_info sample_ext sample_self sample_frame = Inr (sample_out, sample_self') \<and>
   sun_events sample_ext sample_self = Inr (sample_timeline, sample_self') \<and>
   utc (sample_out ! 1) = Some (combine 0 (time_hm 3 0)) \<and>
   combine 0 (time_hm 3 0) < datetime (hd sample_timeline) \<and>
   phased_row.phase (sample_out ! 1) \<noteq> PLANS"
proof -
  have "utc (sample_out ! 1) = Some (combine 0 (time_hm 3 0))" by (simp add: sample_out_def)
  moreover have "combine 0 (time_hm 3 0) < datetime (hd sample_timeline)" by code_simp
  moreover have "phased_row.phase (sample_out ! 1) \<noteq> PLANS" by code_simp
  ultimately show ?thesis using sample_expand sample_sun_events by blast
qed




text \<open>
  Claim C6, at an input where the code departs from it. In the sample mission the
  clock that \<open>sun_events\<close> sets for day 1 is 12:00 on the UTC scale, which is 07:00 in
  the zone of the settings; 12:00 there is 17:00 UTC. The sun of day 1 rises at
  12:00:30 UTC, after that clock, so the rising found for day 1 is the rising of day 0
  and not the one before the local noon of day 1; the timeline has no Daytime
  breakpoint on day 1, and a point of day 1 at 15:00 UTC, 10:00 local time, is
  labelled Civil Twilight.
\<close>

theorem noon_anchor_misses_sunrise:
  "sun_events sample_ext sample_self = Inr (sample_timeline, sample_self') \<and>
   Observer.date (observer sample_self') = combine 1 (time_hm 12 0) \<and>
   time_of (tz_convert sample_ext TIMEZONE (combine 1 (time_hm 12 0))) = time_hm 7 0 \<and>
   time_of (tz_convert sample_ext TIMEZONE (combine 1 (time_hm 17 0))) = time_hm 12 0 \<and>
   previous_rising sample_ext
     (sample_observer\<lparr>Observer.date := combine 1 (time_hm 12 0), horizon := SHINE_HORIZ\<rparr>) =
     combine 0 (time_hm 12 0) - 30000000 \<and>
   previous_rising sample_ext
     (sample_observer\<lparr>Observer.date := combine 1 (time_hm 17 0), horizon := SHINE_HORIZ\<rparr>) =
     combine 1 (time_hm 12 0) + 30000000 \<and>
   filter (\<lambda>e. event.phase e = SHINE \<and> date_of (datetime e) = 1) sample_timeline = [] \<and>
   expand_time_info sample_ext sample_self daylight_frame = Inr (daylight_out, sample_self') \<and>
   utc (daylight_out ! 0) = Some (combine 1 (time_hm 15 0)) \<and>
   local (daylight_out ! 0) = Some (combine 1 (time_hm 10 0)) \<and>
   phased_row.phase (daylight_out ! 0) = CIVIL"
proof -
  have a: "Observer.date (observer sample_self') = combine 1 (time_hm 12 0)"
    by (simp add: sample_self'_def)
  have b: "time_of (tz_convert sample_ext TIMEZONE (combine 1 (time_hm 12 0))) = time_hm 7 0"
          "time_of (tz_convert sample_ext TIMEZONE (combine 1 (time_hm 17 0))) = time_hm 12 0"
    by code_simp+
  have c: "previous_rising sample_ext
             (sample_observer\<lparr>Observer.date := combine 1 (time_hm 12 0), horizon := SHINE_HORIZ\<rparr>) =
             combine 0 (time_hm 12 0) - 30000000"
          "previous_rising sample_ext
             (sample_observer\<lparr>Observer.date := combine 1 (time_hm 17 0), horizon := SHINE_HORIZ\<rparr>) =
             combine 1 (time_hm 12 0) + 30000000"
    by code_simp+
  have d: "filter (\<lambda>e. event.phase e = SHINE \<and> date_of (datetime e) = 1) sample_timeline = []"
    by code_simp
  have e: "expand_time_info sample_ext sample_self daylight_frame = Inr (daylight_out, sample_self')"
    by code_simp
  have f: "utc (daylight_out ! 0) = Some (combine 1 (time_hm 15 0))"
          "local (daylight_out ! 0) = Some (combine 1 (time_hm 10 0))"
          "phased_row.phase (daylight_out ! 0) = CIVIL"
    by (simp_all add: daylight_out_def)
  show ?thesis using sample_sun_events a b c d e f by (intro conjI)
qed

text \<open>
  Claim C7, as the code has it. With no track point at all the construction of the
  analysis fails, in \<open>_observer_init\<close>, with the \<open>TypeError\<close> of unpacking the median of
  an empty array; it does not raise \<open>InsufficientDataError\<close>.
\<close>

theorem no_points_TypeError:
  assumes "walk g = []"
  shows "observer_init X g = Inl TypeError \<and> GPX_init X g = Inl TypeError"
  using assms by (simp add: observer_init_def GPX_init_def)

theorem no_points_TypeError_witness:
  "walk pointless_gpx = [] \<and> observer_init sample_ext pointless_gpx = Inl TypeError \<and>
   GPX_init sample_ext pointless_gpx = Inl TypeError"
proof -
  have h: "walk pointless_gpx = []" by (simp add: walk_def pointless_gpx_def)
  show ?thesis using no_points_TypeError [OF h, of sample_ext] h by simp
qed

theorem no_points_counterexample:
  "walk empty_gpx = [] \<and> GPX_init sample_ext empty_gpx = Inl TypeError \<and>
   GPX_init sample_ext empty_gpx \<noteq> Inl InsufficientDataError"
  by (simp add: walk_def empty_gpx_def GPX_init_def observer_init_def)

text \<open>
  Claim C8. Three calls of \<open>track_data\<close> on one mission, with \<open>None\<close>, \<open>True\<close> and
  \<open>False\<close>, in any order (the object is the same at each call up to the clock and the
  horizon that earlier calls left in its observer): for every track id the rows of the
  first result are, as a multiset, the rows of the second together with the rows of
  the third, so the counts add up; no row is in both filtered results and every row is
  in one of them.
\<close>

theorem track_data_partition:
  assumes "track_data X self None = Inr (df_all, self1)"
      and "track_data X self_t (Some True) = Inr (df_timed, self2)"
      and "track_data X self_f (Some False) = Inr (df_untimed, self3)"
      and "same_mission self self_t" and "same_mission self self_f"
  shows "mset (filter (\<lambda>r. id' r = T) df_all) =
           mset (filter (\<lambda>r. id' r = T) df_timed) + mset (filter (\<lambda>r. id' r = T) df_untimed) \<and>
         length (filter (\<lambda>r. id' r = T) df_all) =
           length (filter (\<lambda>r. id' r = T) df_timed) + length (filter (\<lambda>r. id' r = T) df_untimed) \<and>
         set df_timed \<inter> set df_untimed = {} \<and>
         set df_all = set df_timed \<union> set df_untimed"
proof -
  have s1: "same_mission self1 self_t" "same_mission self1 self_f"
    using same_mission_after [OF assms(1)] assms(4,5) by (simp_all add: same_mission_def)
  have t: "df_timed = filter (\<lambda>r. utc r \<noteq> None) df_all"
    using track_data_again [OF assms(1), of "Some True"] assms(2)
          same_mission_track_data [OF s1(1), of X "Some True"] by simp
  have u: "df_untimed = filter (\<lambda>r. \<not> utc r \<noteq> None) df_all"
    using track_data_again [OF assms(1), of "Some False"] assms(3)
          same_mission_track_data [OF s1(2), of X "Some False"] by simp
  have m: "mset (filter (\<lambda>r. id' r = T) df_all) =
           mset (filter (\<lambda>r. id' r = T) df_timed) + mset (filter (\<lambda>r. id' r = T) df_untimed)"
    unfolding t u by (rule mset_filter_split)
  have l: "length (filter (\<lambda>r. id' r = T) df_all) =
           length (filter (\<lambda>r. id' r = T) df_timed) + length (filter (\<lambda>r. id' r = T) df_untimed)"
    unfolding t u by (rule length_filter_split)
  have d: "set df_timed \<inter> set df_untimed = {}" "set df_all = set df_timed \<union> set df_untimed"
    unfolding t u by auto
  show ?thesis using m l d by blast
qed

theorem track_data_partition_witness:
  "track_data sample_ext sample_self None = Inr (sample_out, sample_self') \<and>
   track_data sample_ext sample_self' (Some True) = Inr (sample_timed, sample_self') \<and>
   track_data sample_ext sample_self (Some False) = Inr (sample_untimed, sample_self') \<and>
   same_mission sample_self sample_self' \<and> same_mission sample_self sample_self \<and>
   length (filter (\<lambda>r. id' r = 1) sample_out) = 3 \<and>
   length (filter (\<lambda>r. id' r = 1) sample_timed) = 3 \<and>
   length (filter (\<lambda>r. id' r = 1) sample_untimed) = 0 \<and>
   set sample_timed \<inter> set sample_untimed = {}"
proof -
  have t: "track_data sample_ext sample_self' (Some True) = Inr (sample_timed, sample_self')"
    by code_simp
  have u: "track_data sample_ext sample_self (Some False) = Inr (sample_untimed, sample_self')"
    by code_simp
  have m: "same_mission sample_self sample_self'" "same_mission sample_self sample_self"
    by (simp_all add: same_mission_def sample_self'_def sample_self_def)
  have l: "length (filter (\<lambda>r. id' r = 1) sample_timed) = 3"
          "length (filter (\<lambda>r. id' r = 1) sample_untimed) = 0"
    by (simp_all add: sample_timed_def sample_untimed_def sample_out_def)
  note w = track_data_partition [OF sample_track_data t u m, of 1]
  from w l have a: "length (filter (\<lambda>r. id' r = 1) sample_out) = 3" by simp
  from w have b: "set sample_timed \<inter> set sample_untimed = {}" by blast
  show ?thesis using sample_track_data t u m a l b by blast
qed

text \<open>
  Claim C9. The output of \<open>_expand_time_info\<close> has the rows of its input, in their order
  and none dropped, and every output row carries as \<open>start_phase\<close> the phase of the first
  row of its track id and as \<open>end_phase\<close> the phase of the last row of its track id, in
  the order of the frame.
\<close>

theorem track_summary_phases:
  assumes "expand_time_info X self df = Inr (out, self')"
  shows "map parsed_row.truncate out = df \<and>
         (\<forall>r\<in>set out.
            start_phase r = phased_row.phase (hd (filter (\<lambda>x. id' x = id' r) out)) \<and>
            end_phase r = phased_row.phase (last (filter (\<lambda>x. id' x = id' r) out)))"
proof -
  from expand_time_info_InrD(1) [OF assms] obtain tline where
    out: "out = map (summarised (classify tline (map (expand_row X) df)))
                    (classify tline (map (expand_row X) df))"
    by blast
  define D where "D = classify tline (map (expand_row X) df)"
  have out': "out = map (summarised D) D" using out by (simp add: D_def)
  have tr: "map parsed_row.truncate out = df"
    by (simp add: out' comp_def) (simp add: D_def classify_truncate)
  have ph: "start_phase r = phased_row.phase (hd (filter (\<lambda>x. id' x = id' r) out)) \<and>
            end_phase r = phased_row.phase (last (filter (\<lambda>x. id' x = id' r) out))"
    if "r \<in> set out" for r
  proof -
    from that obtain d where d: "d \<in> set D" "r = summarised D d"
      by (auto simp: out')
    have ne: "filter (\<lambda>x. id' x = id' d) D \<noteq> []"
      using d(1) by (auto simp: filter_empty_conv)
    have f: "filter (\<lambda>x. id' x = id' r) out = map (summarised D) (filter (\<lambda>x. id' x = id' d) D)"
      by (simp add: out' d(2) filter_summarised)
    show ?thesis
      using ne by (simp add: f hd_map last_map) (simp add: d(2) first_phase_def last_phase_def)
  qed
  show ?thesis using tr ph by blast
qed

theorem track_summary_phases_witness:
  "expand_time_info sample_ext sample_self unordered_frame = Inr (unordered_out, sample_self') \<and>
   map parsed_row.truncate unordered_out = unordered_frame \<and>
   unordered_out ! 1 \<in> set unordered_out \<and>
   filter (\<lambda>x. id' x = id' (unordered_out ! 1)) unordered_out = unordered_out \<and>
   start_phase (unordered_out ! 1) = phased_row.phase (unordered_out ! 0) \<and>
   end_phase (unordered_out ! 1) = phased_row.phase (unordered_out ! 1) \<and>
   phased_row.phase (unordered_out ! 0) = NAUTI \<and> phased_row.phase (unordered_out ! 1) = NIGHT \<and>
   utc (unordered_out ! 0) = Some (combine 1 (time_hm 22 30)) \<and>
   utc (unordered_out ! 1) = Some (combine 0 (time_hm 3 0))"
proof -
  have h: "unordered_out ! 1 \<in> set unordered_out" by (simp add: unordered_out_def)
  have f: "filter (\<lambda>x. id' x = id' (unordered_out ! 1)) unordered_out = unordered_out"
    by (simp add: unordered_out_def)
  have p: "phased_row.phase (unordered_out ! 0) = NAUTI" "phased_row.phase (unordered_out ! 1) = NIGHT"
          "utc (unordered_out ! 0) = Some (combine 1 (time_hm 22 30))"
          "utc (unordered_out ! 1) = Some (combine 0 (time_hm 3 0))"
    by (simp_all add: unordered_out_def)
  have hl: "hd unordered_out = unordered_out ! 0" "last unordered_out = unordered_out ! 1"
    by (simp_all add: unordered_out_def)
  note w = track_summary_phases [OF unordered_expand]
  from w have a: "map parsed_row.truncate unordered_out = unordered_frame" by blast
  from w h have
    "start_phase (unordered_out ! 1) =
       phased_row.phase (hd (filter (\<lambda>x. id' x = id' (unordered_out ! 1)) unordered_out)) \<and>
     end_phase (unordered_out ! 1) =
       phased_row.phase (last (filter (\<lambda>x. id' x = id' (unordered_out ! 1)) unordered_out))"
    by blast
  then have b: "start_phase (unordered_out ! 1) = phased_row.phase (unordered_out ! 0)"
                "end_phase (unordered_out ! 1) = phased_row.phase (unordered_out ! 1)"
    by (simp_all only: f hl)
  show ?thesis using unordered_expand a h f b p by blast
qed

text \<open>
  Claim C10. After classification the phase of a row is \<open>Planning\<close> exactly when the row
  has no timestamp; a row with a timestamp has one of the five other labels, and
  \<open>Night\<close> when its timestamp is earlier than every breakpoint.
\<close>

theorem planning_iff_no_timestamp:
  assumes "expand_time_info X self df = Inr (out, self')"
      and "sun_events X self = Inr (tline, self'')"
      and "r \<in> set out"
  shows "(phased_row.phase r = PLANS \<longleftrightarrow> utc r = None) \<and>
         (utc r \<noteq> None \<longrightarrow> phased_row.phase r \<in> {NIGHT, ASTRO, NAUTI, CIVIL, SHINE}) \<and>
         (\<forall>t. utc r = Some t \<and> (\<forall>e\<in>set tline. t < datetime e) \<longrightarrow> phased_row.phase r = NIGHT)"
proof -
  have ph: "phased_row.phase r = assigned_phase tline (utc r)"
    using assms by (rule out_row_phase)
  have some: "phased_row.phase r \<in> {NIGHT, ASTRO, NAUTI, CIVIL, SHINE}" if "utc r = Some t" for t
  proof (cases "latest_breakpoint tline t")
    case None
    then show ?thesis using ph that by (simp add: assigned_phase_def)
  next
    case (Some b)
    then have "b \<in> set tline" by (rule latest_breakpoint_SomeD)
    then have "event.phase b \<in> {NIGHT, ASTRO, NAUTI, CIVIL, SHINE}"
      using sun_events_phase_in [OF assms(2)] by blast
    then show ?thesis using ph that Some by (simp add: assigned_phase_def)
  qed
  have a: "phased_row.phase r = PLANS \<longleftrightarrow> utc r = None"
  proof (cases "utc r")
    case None
    then show ?thesis using ph by (simp add: assigned_phase_def)
  next
    case (Some t)
    then show ?thesis using some [OF Some] phase_names_distinct by auto
  qed
  have b: "utc r \<noteq> None \<longrightarrow> phased_row.phase r \<in> {NIGHT, ASTRO, NAUTI, CIVIL, SHINE}"
    using some by blast
  have c: "\<forall>t. utc r = Some t \<and> (\<forall>e\<in>set tline. t < datetime e) \<longrightarrow> phased_row.phase r = NIGHT"
    using ph by (auto simp: assigned_phase_def latest_breakpoint_None [symmetric])
  show ?thesis using a b c by blast
qed

theorem planning_iff_no_timestamp_witness:
  "expand_time_info sample_ext sample_self sample_frame = Inr (sample_out, sample_self') \<and>
   sun_events sample_ext sample_self = Inr (sample_timeline, sample_self') \<and>
   sample_out ! 0 \<in> set sample_out \<and>
   utc (sample_out ! 0) = None \<and>
   phased_row.phase (sample_out ! 0) = PLANS \<and>
   sample_out ! 1 \<in> set sample_out \<and>
   utc (sample_out ! 1) = Some (combine 0 (time_hm 3 0)) \<and>
   phased_row.phase (sample_out ! 1) \<noteq> PLANS"
proof -
  have h0: "sample_out ! 0 \<in> set sample_out" and h1: "sample_out ! 1 \<in> set sample_out"
    by (simp_all add: sample_out_def)
  have u0: "utc (sample_out ! 0) = None"
    and u1: "utc (sample_out ! 1) = Some (combine 0 (time_hm 3 0))"
    by (simp_all add: sample_out_def)
  from planning_iff_no_timestamp [OF sample_expand sample_sun_events h0] u0
  have a: "phased_row.phase (sample_out ! 0) = PLANS" by blast
  from planning_iff_no_timestamp [OF sample_expand sample_sun_events h1] u1
  have b: "phased_row.phase (sample_out ! 1) \<noteq> PLANS" by simp
  show ?thesis using sample_expand sample_sun_events h0 h1 u0 u1 a b by blast
qed

end
